theory Spec2Isabelle
  imports Complex_Main "HOL-Library.Stream" "HOL-Library.Sublist"
begin

section \<open>The sample FX-order generator (generate\_sample\_data.py)\<close>

text \<open>
  The script draws every field of an order record from Python's process-wide random
  source and reads the wall clock. Both effects are made explicit here. The random
  source is a stream of raw natural numbers that is passed through every call and
  returned advanced; the clock readings are parameters. Python floats are modelled as
  exact reals: no rounding to binary64 happens in the model. Everything that the
  Python library can raise on the way is a value of \<open>py_error\<close>.
\<close>

subsection \<open>The random source and the library calls the script makes\<close>

datatype py_error = ValueError | IndexError | ZeroDivisionError

type_synonym rng = "nat stream"

text \<open>
  \<^verbatim>\<open>random.random()\<close> returns \<open>k / 2^53\<close> for a 53-bit integer \<open>k\<close>, so a float in
  \<open>[0, 1)\<close>. The raw stream element is reduced to 53 bits.
\<close>

definition random_random :: "rng \<Rightarrow> real \<times> rng" where
  "random_random g = (real (shd g mod 2 ^ 53) / 2 ^ 53, stl g)"

text \<open>
  The library's internal \<^verbatim>\<open>_randbelow(n)\<close>, defined for \<open>n > 0\<close>: an integer in
  \<open>[0, n)\<close>. Every value of the range is reachable from some raw draw.
\<close>

definition randbelow :: "nat \<Rightarrow> rng \<Rightarrow> nat \<times> rng" where
  "randbelow n g = (shd g mod n, stl g)"

text \<open>
  \<^verbatim>\<open>random.randint(a, b)\<close> is \<^verbatim>\<open>randrange(a, b + 1)\<close>: with
  \<open>width = b + 1 - a\<close> it returns \<open>a + _randbelow(width)\<close> when \<open>width > 0\<close> and
  raises ValueError on an empty range.
\<close>

definition random_randint :: "int \<Rightarrow> int \<Rightarrow> rng \<Rightarrow> py_error + (int \<times> rng)" where
  "random_randint a b g =
     (let width = b + 1 - a in
      if 0 < width
      then (case randbelow (nat width) g of (r, g') \<Rightarrow> Inr (a + int r, g'))
      else Inl ValueError)"

text \<open>\<^verbatim>\<open>random.uniform(a, b)\<close> is \<^verbatim>\<open>a + (b - a) * random()\<close>.\<close>

definition random_uniform :: "real \<Rightarrow> real \<Rightarrow> rng \<Rightarrow> real \<times> rng" where
  "random_uniform a b g = (case random_random g of (u, g') \<Rightarrow> (a + (b - a) * u, g'))"

text \<open>
  \<^verbatim>\<open>random.choice(seq)\<close> raises IndexError on an empty sequence and returns
  \<^verbatim>\<open>seq[_randbelow(len(seq))]\<close> otherwise.
\<close>

definition random_choice :: "'a list \<Rightarrow> rng \<Rightarrow> py_error + ('a \<times> rng)" where
  "random_choice seq g =
     (if seq = [] then Inl IndexError
      else (case randbelow (length seq) g of (i, g') \<Rightarrow> Inr (seq ! i, g')))"

text \<open>
  \<^verbatim>\<open>bisect.bisect_right(a, x, lo, hi)\<close>: binary search for the insertion point of
  \<open>x\<close> to the right of equal entries, within \<open>a[lo:hi]\<close>.
\<close>

function bisect_right :: "real list \<Rightarrow> real \<Rightarrow> nat \<Rightarrow> nat \<Rightarrow> nat" where
  "bisect_right a x lo hi =
     (if lo < hi
      then (let mid = (lo + hi) div 2 in
            if x < a ! mid then bisect_right a x lo mid
            else bisect_right a x (mid + 1) hi)
      else lo)"
  by pat_completeness auto
termination
  by (relation "measure (\<lambda>(a, x, lo, hi). hi - lo)") auto

declare bisect_right.simps [simp del]

text \<open>\<^verbatim>\<open>itertools.accumulate(weights)\<close>: the running sums.\<close>

fun accumulate :: "real \<Rightarrow> real list \<Rightarrow> real list" where
  "accumulate acc [] = []"
| "accumulate acc (w # ws) = (acc + w) # accumulate (acc + w) ws"

text \<open>
  \<^verbatim>\<open>random.choices(population, k=k)\<close> without weights: \<open>k\<close> independent picks
  \<^verbatim>\<open>population[floor(random() * n)]\<close>. An empty population makes the subscript
  raise IndexError.
\<close>

fun choices_uniform :: "'a list \<Rightarrow> nat \<Rightarrow> rng \<Rightarrow> py_error + ('a list \<times> rng)" where
  "choices_uniform population 0 g = Inr ([], g)"
| "choices_uniform population (Suc k) g =
     (case random_random g of (u, g1) \<Rightarrow>
        (let i = nat \<lfloor>u * real (length population)\<rfloor> in
         if i < length population
         then (case choices_uniform population k g1 of
                 Inl e \<Rightarrow> Inl e
               | Inr (rest, g2) \<Rightarrow> Inr (population ! i # rest, g2))
         else Inl IndexError))"

text \<open>
  \<^verbatim>\<open>random.choices(population, weights=weights, k=k)\<close>: the cumulative weights must
  be as many as the population (ValueError otherwise; an empty weight list makes
  \<^verbatim>\<open>cum_weights[-1]\<close> raise IndexError), their total must be positive
  (ValueError), and each pick is
  \<^verbatim>\<open>population[bisect_right(cum_weights, random() * total, 0, n - 1)]\<close>.
\<close>

fun choices_picks :: "'a list \<Rightarrow> real list \<Rightarrow> real \<Rightarrow> nat \<Rightarrow> rng \<Rightarrow> 'a list \<times> rng" where
  "choices_picks population cum_weights total_w 0 g = ([], g)"
| "choices_picks population cum_weights total_w (Suc k) g =
     (case random_random g of (u, g1) \<Rightarrow>
        (case choices_picks population cum_weights total_w k g1 of (rest, g2) \<Rightarrow>
           (population ! bisect_right cum_weights (u * total_w) 0 (length population - 1) # rest,
            g2)))"

definition random_choices :: "'a list \<Rightarrow> real list \<Rightarrow> nat \<Rightarrow> rng \<Rightarrow> py_error + ('a list \<times> rng)"
  where
  "random_choices population weights k g =
     (let cum_weights = accumulate 0 weights in
      if length cum_weights \<noteq> length population then Inl ValueError
      else if cum_weights = [] then Inl IndexError
      else (let total_w = last cum_weights in
            if total_w \<le> 0 then Inl ValueError
            else Inr (choices_picks population cum_weights total_w k g)))"

text \<open>
  \<^verbatim>\<open>random.sample(population, k)\<close> raises ValueError when \<open>k\<close> exceeds the
  population. For the short populations of this script (at most 21 elements) it copies
  the population into a pool and, \<open>k\<close> times, picks \<^verbatim>\<open>pool[j]\<close> with
  \<^verbatim>\<open>j = _randbelow(n - i)\<close> and moves the last unselected element into the vacancy.
\<close>

fun sample_pool :: "'a list \<Rightarrow> nat \<Rightarrow> nat \<Rightarrow> rng \<Rightarrow> 'a list \<times> rng" where
  "sample_pool pool n 0 g = ([], g)"
| "sample_pool pool n (Suc k) g =
     (case randbelow n g of (j, g1) \<Rightarrow>
        (case sample_pool (pool[j := pool ! (n - 1)]) (n - 1) k g1 of (rest, g2) \<Rightarrow>
           (pool ! j # rest, g2)))"

definition random_sample :: "'a list \<Rightarrow> nat \<Rightarrow> rng \<Rightarrow> py_error + ('a list \<times> rng)" where
  "random_sample population k g =
     (if length population < k then Inl ValueError
      else Inr (sample_pool population (length population) k g))"

text \<open>Indexing a list at 0, as in \<^verbatim>\<open>random.choices(...)[0]\<close>.\<close>

definition index0 :: "'a list \<Rightarrow> py_error + 'a" where
  "index0 xs = (case xs of [] \<Rightarrow> Inl IndexError | x # _ \<Rightarrow> Inr x)"

text \<open>Float division raises ZeroDivisionError on a zero divisor.\<close>

definition float_div :: "real \<Rightarrow> real \<Rightarrow> py_error + real" where
  "float_div x y = (if y = 0 then Inl ZeroDivisionError else Inr (x / y))"

text \<open>
  \<^verbatim>\<open>round(x, ndigits)\<close> rounds to the nearest multiple of \<open>10^(-ndigits)\<close>, a tie
  going to the even neighbour; \<^verbatim>\<open>int(x)\<close> truncates towards zero;
  \<^verbatim>\<open>round(x)\<close> is the nearest integer, ties to even.
\<close>

definition round_half_even :: "real \<Rightarrow> int" where
  "round_half_even y =
     (let f = \<lfloor>y\<rfloor>; d = y - of_int f in
      if d < 1 / 2 then f
      else if 1 / 2 < d then f + 1
      else if even f then f else f + 1)"

definition py_round :: "real \<Rightarrow> nat \<Rightarrow> real" where
  "py_round x ndigits = of_int (round_half_even (x * 10 ^ ndigits)) / 10 ^ ndigits"

definition py_int :: "real \<Rightarrow> int" where
  "py_int x = (if 0 \<le> x then \<lfloor>x\<rfloor> else \<lceil>x\<rceil>)"

text \<open>\<^verbatim>\<open>dict.get(key, default)\<close> on a dictionary given by its items.\<close>

definition dict_get :: "('k \<times> 'v) list \<Rightarrow> 'k \<Rightarrow> 'v \<Rightarrow> 'v" where
  "dict_get d k dflt = (case map_of d k of None \<Rightarrow> dflt | Some v \<Rightarrow> v)"

text \<open>Sequencing of calls that may raise and that advance the random source.\<close>

definition and_then ::
  "py_error + ('a \<times> rng) \<Rightarrow> ('a \<Rightarrow> rng \<Rightarrow> py_error + 'b) \<Rightarrow> py_error + 'b" where
  "and_then m f = (case m of Inl e \<Rightarrow> Inl e | Inr (x, g) \<Rightarrow> f x g)"

subsection \<open>Configuration\<close>

definition CURRENCIES :: "string list" where
  "CURRENCIES = [''EUR'', ''USD'', ''CHF'', ''GBP'', ''DKK'', ''SEK'', ''NOK'', ''JPY'']"

definition EXCHANGE_RATES :: "(string \<times> real) list" where
  "EXCHANGE_RATES =
     [(''EUR'', 1.0), (''USD'', 1.05), (''CHF'', 0.94), (''GBP'', 0.86),
      (''DKK'', 7.46), (''SEK'', 11.20), (''NOK'', 11.80), (''JPY'', 162.0)]"

definition FX_ORDER_TYPES :: "string list" where
  "FX_ORDER_TYPES = [''forward'', ''chain'', ''spot'']"

definition FX_ORDER_TYPE_WEIGHTS :: "real list" where
  "FX_ORDER_TYPE_WEIGHTS = [0.3, 0.6, 0.1]"

definition MARKET_DIRECTIONS :: "string list" where
  "MARKET_DIRECTIONS = [''buy'', ''sell'']"

definition STATUSES :: "string list" where
  "STATUSES = [''open'', ''closed_to_trading'', ''completed'']"

definition STATUS_WEIGHTS :: "real list" where
  "STATUS_WEIGHTS = [0.5, 0.3, 0.2]"

definition LIQUIDITY_PROVIDERS :: "string list" where
  "LIQUIDITY_PROVIDERS = [''SIVB'', ''RBS'', ''SEB'', ''BARC'', ''CITI'', ''HSBC'']"

definition ascii_uppercase :: string where
  "ascii_uppercase = ''ABCDEFGHIJKLMNOPQRSTUVWXYZ''"

definition digits :: string where
  "digits = ''0123456789''"

subsection \<open>The generator functions\<close>

definition generate_reference :: "string \<Rightarrow> rng \<Rightarrow> py_error + (string \<times> rng)" where
  "generate_reference order_type g =
     and_then (choices_uniform (ascii_uppercase @ digits) 8 g) (\<lambda>suffix g1.
       if order_type = ''chain''
       then Inr (''KCH-'' @ suffix, g1)
       else Inr (''K-'' @ suffix, g1))"

definition generate_rate :: "string \<Rightarrow> string \<Rightarrow> rng \<Rightarrow> py_error + (real \<times> rng)" where
  "generate_rate buy_currency sell_currency g =
     (if buy_currency = sell_currency then Inr (1.0, g)
      else
        (let buy_rate = dict_get EXCHANGE_RATES buy_currency 1.0;
             sell_rate = dict_get EXCHANGE_RATES sell_currency 1.0
         in case float_div sell_rate buy_rate of
              Inl e \<Rightarrow> Inl e
            | Inr base_rate \<Rightarrow>
                (case random_uniform (- 0.02) 0.02 g of (variation, g1) \<Rightarrow>
                   Inr (py_round (base_rate * (1 + variation)) 7, g1))))"

text \<open>
  The bounds of the four \<^verbatim>\<open>randint\<close> calls are the literals \<^verbatim>\<open>100_00\<close>,
  \<^verbatim>\<open>50_000_00\<close>, \<^verbatim>\<open>500_000_00\<close>, \<^verbatim>\<open>5_000_000_00\<close> and
  \<^verbatim>\<open>100_000_000_00\<close>: the integers 10000, 5000000, 50000000, 500000000 and
  10000000000. Each draw is multiplied by 100.
\<close>

definition generate_amount_cents :: "rng \<Rightarrow> py_error + (int \<times> rng)" where
  "generate_amount_cents g =
     and_then (random_choices [''small'', ''medium'', ''large'', ''very_large'']
                 [0.3, 0.4, 0.2, 0.1] 1 g) (\<lambda>picked g1.
       case index0 picked of
         Inl e \<Rightarrow> Inl e
       | Inr size_type \<Rightarrow>
           if size_type = ''small''
           then and_then (random_randint 10000 5000000 g1) (\<lambda>n g2. Inr (n * 100, g2))
           else if size_type = ''medium''
           then and_then (random_randint 5000000 50000000 g1) (\<lambda>n g2. Inr (n * 100, g2))
           else if size_type = ''large''
           then and_then (random_randint 50000000 500000000 g1) (\<lambda>n g2. Inr (n * 100, g2))
           else and_then (random_randint 500000000 10000000000 g1) (\<lambda>n g2. Inr (n * 100, g2)))"

text \<open>
  A \<^verbatim>\<open>datetime\<close> is a count of microseconds on the local time line, a
  \<^verbatim>\<open>timedelta\<close> a difference of two. \<^verbatim>\<open>strftime("%Y-%m-%d")\<close> keeps the
  calendar day only; the day is represented by its ordinal instead of the rendered
  string. The two calls of \<^verbatim>\<open>datetime.now()\<close> in \<^verbatim>\<open>generate_dates\<close> are the
  readings \<open>now1\<close> and \<open>now2\<close>.
\<close>

type_synonym datetime = int

definition timedelta :: "int \<Rightarrow> int" where
  "timedelta days = days * 86400000000"

definition timedelta_days :: "int \<Rightarrow> int" where
  "timedelta_days delta = delta div 86400000000"

definition strftime_ymd :: "datetime \<Rightarrow> int" where
  "strftime_ymd t = t div 86400000000"

definition generate_dates ::
  "string \<Rightarrow> datetime \<Rightarrow> datetime \<Rightarrow> rng \<Rightarrow> py_error + ((int \<times> int option \<times> int) \<times> rng)"
  where
  "generate_dates status now1 now2 g =
     and_then (random_randint 0 365 g) (\<lambda>days_ago g1.
       let creation_date = now1 - timedelta days_ago in
       and_then (random_randint 1 365 g1) (\<lambda>value_date_offset g2.
         let value_date = creation_date + timedelta value_date_offset in
         and_then
           (if status \<in> set [''closed_to_trading'', ''completed'']
            then (let max_exec_days = min days_ago (timedelta_days (now2 - creation_date)) in
                  if 0 < max_exec_days
                  then and_then (random_randint 0 max_exec_days g2) (\<lambda>exec_offset g3.
                         Inr (Some (creation_date + timedelta exec_offset), g3))
                  else Inr (None, g2))
            else Inr (None, g2))
           (\<lambda>execution_date g4.
              Inr ((strftime_ymd creation_date,
                    map_option strftime_ymd execution_date,
                    strftime_ymd value_date), g4))))"

text \<open>
  The caller unpacks the returned tuple into two names, which raises ValueError unless
  the tuple has exactly two components.
\<close>

definition unpack2 :: "'a list \<Rightarrow> py_error + ('a \<times> 'a)" where
  "unpack2 xs = (case xs of [a, b] \<Rightarrow> Inr (a, b) | _ \<Rightarrow> Inl ValueError)"

definition generate_currency_pair :: "rng \<Rightarrow> py_error + ((string \<times> string) \<times> rng)" where
  "generate_currency_pair g =
     (case random_random g of (u1, g1) \<Rightarrow>
        if u1 < 0.7
        then and_then (random_choice (filter (\<lambda>c. c \<noteq> ''EUR'') CURRENCIES) g1) (\<lambda>other g2.
               case random_random g2 of (u2, g3) \<Rightarrow>
                 if u2 < 0.5 then Inr ((''EUR'', other), g3)
                 else Inr ((other, ''EUR''), g3))
        else and_then (random_sample (filter (\<lambda>c. c \<noteq> ''EUR'') CURRENCIES) 2 g1) (\<lambda>pair g2.
               case unpack2 pair of
                 Inl e \<Rightarrow> Inl e
               | Inr p \<Rightarrow> Inr (p, g2)))"

record order =
  order_id :: string
  reference :: string
  fx_order_type :: string
  source :: string
  creation_date :: int
  market_direction :: string
  buy_amount_cents :: int
  sell_amount_cents :: int
  buy_currency :: string
  sell_currency :: string
  amount_cents :: int
  counter_amount_cents :: int
  currency :: string
  counter_currency :: string
  value_date :: int
  rate :: real
  liquidity_provider :: string
  execution_date :: "int option"
  status :: string

definition generate_order :: "datetime \<Rightarrow> datetime \<Rightarrow> rng \<Rightarrow> py_error + (order \<times> rng)" where
  "generate_order now1 now2 g =
     and_then (random_choices FX_ORDER_TYPES FX_ORDER_TYPE_WEIGHTS 1 g) (\<lambda>picked_type g1.
     case index0 picked_type of Inl e \<Rightarrow> Inl e | Inr fx_order_type' \<Rightarrow>
     and_then (generate_reference fx_order_type' g1) (\<lambda>reference' g2.
     and_then (random_choice MARKET_DIRECTIONS g2) (\<lambda>market_direction' g3.
     and_then (random_choices STATUSES STATUS_WEIGHTS 1 g3) (\<lambda>picked_status g4.
     case index0 picked_status of Inl e \<Rightarrow> Inl e | Inr status' \<Rightarrow>
     and_then (generate_currency_pair g4) (\<lambda>(buy_currency', sell_currency') g5.
     and_then (generate_rate buy_currency' sell_currency' g5) (\<lambda>rate' g6.
     and_then (generate_amount_cents g6) (\<lambda>buy_amount_cents' g7.
     let sell_amount_cents' = py_int (real_of_int buy_amount_cents' * rate');
         (amount_cents', counter_amount_cents', currency', counter_currency') =
           (if market_direction' = ''buy''
            then (buy_amount_cents', sell_amount_cents', buy_currency', sell_currency')
            else (sell_amount_cents', buy_amount_cents', sell_currency', buy_currency'))
     in
     and_then (generate_dates status' now1 now2 g7)
       (\<lambda>(creation_date', execution_date', value_date') g8.
     and_then (random_choice LIQUIDITY_PROVIDERS g8) (\<lambda>liquidity_provider' g9.
       Inr (\<lparr> order_id = reference',
              reference = reference',
              fx_order_type = fx_order_type',
              source = ''fx_order'',
              creation_date = creation_date',
              market_direction = market_direction',
              buy_amount_cents = buy_amount_cents',
              sell_amount_cents = sell_amount_cents',
              buy_currency = buy_currency',
              sell_currency = sell_currency',
              amount_cents = amount_cents',
              counter_amount_cents = counter_amount_cents',
              currency = currency',
              counter_currency = counter_currency',
              value_date = value_date',
              rate = rate',
              liquidity_provider = liquidity_provider',
              execution_date = execution_date',
              status = status' \<rparr>, g9))))))))))"

subsection \<open>Three concrete runs\<close>


definition draws_same_day :: rng where
  "draws_same_day =
     [0, 0, 0, 0, 0, 0, 0, 0, 0, 0, 7881299347898368, 0, 0, 0, 0, 0, 0, 0, 0, 0] @- sconst 0"

definition draws_executed :: rng where
  "draws_executed =
     [0, 0, 0, 0, 0, 0, 0, 0, 0, 0, 7881299347898368, 0, 0, 0, 0, 0, 0, 5, 0, 3, 0] @- sconst 0"

section \<open>Properties\<close>

subsection \<open>What the library calls return\<close>

lemma random_random_range:
  "random_random g = (u, g') \<Longrightarrow> 0 \<le> u \<and> u < 1"
  by (auto simp: random_random_def)

lemma random_uniform_range:
  assumes "random_uniform a b g = (v, g')" "a \<le> b"
  shows "a \<le> v \<and> v \<le> b"
proof -
  obtain u g1 where u: "random_random g = (u, g1)" by (cases "random_random g")
  then have r: "0 \<le> u" "u < 1" using random_random_range by blast+
  have v: "v = a + (b - a) * u" using assms(1) u by (simp add: random_uniform_def)
  have "0 \<le> (b - a) * u" using assms(2) r by simp
  moreover have "(b - a) * u \<le> (b - a) * 1"
    using assms(2) r by (intro mult_left_mono) auto
  ultimately show ?thesis using v by simp
qed

lemma randbelow_range: "0 < n \<Longrightarrow> randbelow n g = (r, g') \<Longrightarrow> r < n"
  by (auto simp: randbelow_def)

lemma random_randint_total:
  assumes "a \<le> b"
  shows "\<exists>n g'. random_randint a b g = Inr (n, g') \<and> a \<le> n \<and> n \<le> b"
proof -
  obtain r g1 where r: "randbelow (nat (b + 1 - a)) g = (r, g1)"
    by (cases "randbelow (nat (b + 1 - a)) g")
  have "r < nat (b + 1 - a)" using randbelow_range[OF _ r] assms by simp
  then have "a + int r \<le> b" by linarith
  then show ?thesis using assms r by (simp add: random_randint_def Let_def)
qed

lemma random_choice_total:
  "seq \<noteq> [] \<Longrightarrow> \<exists>x g'. random_choice seq g = Inr (x, g') \<and> x \<in> set seq"
  by (simp add: random_choice_def randbelow_def)

lemma bisect_right_bounds:
  "lo \<le> hi \<Longrightarrow> lo \<le> bisect_right a x lo hi \<and> bisect_right a x lo hi \<le> hi"
proof (induction a x lo hi rule: bisect_right.induct)
  case (1 a x lo hi)
  show ?case
  proof (cases "lo < hi")
    case False
    then show ?thesis using "1.prems" by (simp add: bisect_right.simps)
  next
    case True
    let ?mid = "(lo + hi) div 2"
    have m: "lo \<le> ?mid" "?mid < hi" using True by auto
    show ?thesis
    proof (cases "x < a ! ?mid")
      case True
      with "1.IH"(1)[OF \<open>lo < hi\<close> refl True] m \<open>lo < hi\<close> show ?thesis
        by (subst (1 2) bisect_right.simps) (simp add: Let_def)
    next
      case False
      with "1.IH"(2)[OF \<open>lo < hi\<close> refl False] m \<open>lo < hi\<close> show ?thesis
        by (subst (1 2) bisect_right.simps) (simp add: Let_def)
    qed
  qed
qed

lemma length_accumulate: "length (accumulate acc ws) = length ws"
  by (induction ws arbitrary: acc) auto

lemma choices_picks_ok:
  "population \<noteq> [] \<Longrightarrow> choices_picks population cw t k g = (xs, g') \<Longrightarrow>
     length xs = k \<and> set xs \<subseteq> set population"
proof (induction k arbitrary: g xs g')
  case 0
  then show ?case by simp
next
  case (Suc k)
  obtain u g1 where u: "random_random g = (u, g1)" by (cases "random_random g")
  obtain rest g2 where rest: "choices_picks population cw t k g1 = (rest, g2)"
    by (cases "choices_picks population cw t k g1")
  have b: "bisect_right cw (u * t) 0 (length population - 1) < length population"
    using bisect_right_bounds[of 0 "length population - 1" cw "u * t"] Suc.prems(1)
    by (cases population) auto
  from Suc.IH[OF Suc.prems(1) rest] Suc.prems(2) u rest b show ?case
    by auto
qed

lemma random_choices_total:
  assumes "population \<noteq> []" "length weights = length population"
    "0 < last (accumulate 0 weights)"
  shows "\<exists>xs g'. random_choices population weights k g = Inr (xs, g') \<and>
           length xs = k \<and> set xs \<subseteq> set population"
proof -
  obtain xs g' where p:
    "choices_picks population (accumulate 0 weights) (last (accumulate 0 weights)) k g = (xs, g')"
    by (cases "choices_picks population (accumulate 0 weights) (last (accumulate 0 weights)) k g")
  have ne: "accumulate 0 weights \<noteq> []"
    using assms(1,2) length_accumulate[of 0 weights] by auto
  show ?thesis
    using choices_picks_ok[OF assms(1) p] p assms ne
    by (simp add: random_choices_def Let_def length_accumulate)
qed

lemma choices_uniform_total:
  "population \<noteq> [] \<Longrightarrow>
     \<exists>xs g'. choices_uniform population k g = Inr (xs, g') \<and>
       length xs = k \<and> set xs \<subseteq> set population"
proof (induction k arbitrary: g)
  case 0
  then show ?case by simp
next
  case (Suc k)
  obtain u g1 where u: "random_random g = (u, g1)" by (cases "random_random g")
  then have r: "0 \<le> u" "u < 1" using random_random_range by blast+
  let ?n = "real (length population)"
  have n: "0 < ?n" using Suc.prems by simp
  have "u * ?n < ?n" using r n by simp
  then have "\<lfloor>u * ?n\<rfloor> < int (length population)" by (simp add: floor_less_iff)
  moreover have "0 \<le> \<lfloor>u * ?n\<rfloor>" using r n by simp
  ultimately have i: "nat \<lfloor>u * ?n\<rfloor> < length population" by linarith
  from Suc.IH[OF Suc.prems, of g1] obtain rest g2 where
    rest: "choices_uniform population k g1 = Inr (rest, g2)" "length rest = k"
      "set rest \<subseteq> set population" by blast
  show ?case using u i rest by (simp add: Let_def)
qed

lemma sample_pool_two:
  assumes "distinct pool" "n = length pool" "2 \<le> n"
  shows "\<exists>a b g'. sample_pool pool n 2 g = ([a, b], g') \<and> a \<noteq> b \<and>
           a \<in> set pool \<and> b \<in> set pool"
proof -
  obtain j g1 where j: "randbelow n g = (j, g1)" by (cases "randbelow n g")
  obtain i g2 where i: "randbelow (n - 1) g1 = (i, g2)" by (cases "randbelow (n - 1) g1")
  have jn: "j < n" using randbelow_range[OF _ j] assms(3) by simp
  have i_lt: "i < n - 1" using randbelow_range[OF _ i] assms(3) by simp
  let ?pool' = "pool[j := pool ! (n - 1)]"
  have val: "sample_pool pool n 2 g = ([pool ! j, ?pool' ! i], g2)"
    using j i by (simp add: numeral_2_eq_2)
  have second: "?pool' ! i = (if i = j then pool ! (n - 1) else pool ! i)"
    using jn i_lt assms(2) by (simp add: nth_list_update)
  have ne: "pool ! j \<noteq> ?pool' ! i"
  proof (cases "i = j")
    case True
    then have "j \<noteq> n - 1" using i_lt by simp
    then show ?thesis using second True jn assms(1,2,3)
      by (simp add: nth_eq_iff_index_eq)
  next
    case False
    then show ?thesis using second jn i_lt assms(1,2)
      by (simp add: nth_eq_iff_index_eq)
  qed
  have "pool ! j \<in> set pool" using jn assms(2) by simp
  moreover have "?pool' ! i \<in> set pool" using second i_lt assms(2,3) by simp
  ultimately show ?thesis using val ne by simp
qed

lemma random_sample_two:
  assumes "distinct population" "2 \<le> length population"
  shows "\<exists>a b g'. random_sample population 2 g = Inr ([a, b], g') \<and> a \<noteq> b \<and>
           a \<in> set population \<and> b \<in> set population"
  using sample_pool_two[OF assms(1) refl assms(2), of g] assms(2)
  by (auto simp: random_sample_def)

subsection \<open>What the generator functions return\<close>

lemma non_base_currencies:
  "filter (\<lambda>c. c \<noteq> ''EUR'') CURRENCIES = [''USD'', ''CHF'', ''GBP'', ''DKK'', ''SEK'', ''NOK'', ''JPY'']"
  by (simp add: CURRENCIES_def)

lemma generate_currency_pair_distinct:
  "\<exists>b s g'. generate_currency_pair g = Inr ((b, s), g') \<and> b \<noteq> s \<and>
     b \<in> set CURRENCIES \<and> s \<in> set CURRENCIES"
proof -
  let ?others = "filter (\<lambda>c. c \<noteq> ''EUR'') CURRENCIES"
  have sub: "set ?others \<subseteq> set CURRENCIES" by auto
  have eur: "''EUR'' \<in> set CURRENCIES" by (simp add: CURRENCIES_def)
  have no_eur: "''EUR'' \<notin> set ?others" by simp
  have ne: "?others \<noteq> []" by (simp add: non_base_currencies)
  have d: "distinct ?others" by (simp add: non_base_currencies)
  have l: "2 \<le> length ?others" by (simp add: non_base_currencies)
  obtain u1 g1 where u1: "random_random g = (u1, g1)" by (cases "random_random g")
  show ?thesis
  proof (cases "u1 < 0.7")
    case True
    from random_choice_total[OF ne, of g1] obtain other g2 where
      c: "random_choice ?others g1 = Inr (other, g2)" "other \<in> set ?others" by blast
    obtain u2 g3 where u2: "random_random g2 = (u2, g3)" by (cases "random_random g2")
    have "other \<noteq> ''EUR''" using c(2) no_eur by auto
    moreover have "other \<in> set CURRENCIES" using c(2) sub by blast
    ultimately show ?thesis using u1 True c u2 eur
      by (cases "u2 < 0.5") (auto simp: generate_currency_pair_def and_then_def)
  next
    case False
    from random_sample_two[OF d l, of g1] obtain a b g2 where
      s: "random_sample ?others 2 g1 = Inr ([a, b], g2)" "a \<noteq> b"
        "a \<in> set ?others" "b \<in> set ?others" by blast
    have "a \<in> set CURRENCIES" "b \<in> set CURRENCIES" using s(3,4) sub by blast+
    then show ?thesis using u1 False s
      by (auto simp: generate_currency_pair_def and_then_def unpack2_def)
  qed
qed

lemma index0_singleton:
  "length xs = Suc 0 \<Longrightarrow> set xs \<subseteq> A \<Longrightarrow> \<exists>x. index0 xs = Inr x \<and> x \<in> A"
  by (cases xs) (auto simp: index0_def)

lemma pick_one:
  assumes "population \<noteq> []" "length weights = length population"
    "0 < last (accumulate 0 weights)"
  shows "\<exists>picked x g'. random_choices population weights 1 g = Inr (picked, g') \<and>
           index0 picked = Inr x \<and> x \<in> set population"
proof -
  from random_choices_total[OF assms, of 1 g] obtain xs g' where
    xs: "random_choices population weights 1 g = Inr (xs, g')" "length xs = 1"
      "set xs \<subseteq> set population" by blast
  from index0_singleton[of xs "set population"] xs(2,3) obtain x where
    "index0 xs = Inr x" "x \<in> set population" by auto
  with xs(1) show ?thesis by blast
qed

lemma generate_reference_shape:
  "\<exists>suffix g'. generate_reference order_type g =
       Inr ((if order_type = ''chain'' then ''KCH-'' else ''K-'') @ suffix, g') \<and>
     length suffix = 8 \<and> set suffix \<subseteq> set (ascii_uppercase @ digits)"
proof -
  have ne: "ascii_uppercase @ digits \<noteq> []" by (simp add: ascii_uppercase_def)
  from choices_uniform_total[OF ne, of 8 g] obtain suffix g1 where
    "choices_uniform (ascii_uppercase @ digits) 8 g = Inr (suffix, g1)"
    "length suffix = 8" "set suffix \<subseteq> set (ascii_uppercase @ digits)" by blast
  then show ?thesis by (auto simp: generate_reference_def and_then_def)
qed

lemma exchange_rate_bounds:
  "0.86 \<le> dict_get EXCHANGE_RATES c 1.0 \<and> dict_get EXCHANGE_RATES c 1.0 \<le> 162"
  by (simp add: dict_get_def EXCHANGE_RATES_def)

lemma round_half_even_ge_floor: "\<lfloor>y\<rfloor> \<le> round_half_even y"
  by (simp add: round_half_even_def Let_def)

lemma py_round_pos:
  assumes "1 / 10 ^ n \<le> x"
  shows "0 < py_round x n"
proof -
  have "1 \<le> x * 10 ^ n" using assms by (simp add: field_simps)
  then have "1 \<le> \<lfloor>x * 10 ^ n\<rfloor>" by (simp add: le_floor_iff)
  then have "1 \<le> round_half_even (x * 10 ^ n)"
    using round_half_even_ge_floor[of "x * 10 ^ n"] by linarith
  then show ?thesis by (simp add: py_round_def)
qed

lemma base_rate_variation_lower:
  assumes "- 0.02 \<le> (v::real)" "0.86 \<le> (tb::real)" "tb \<le> 162" "0.86 \<le> (ts::real)"
  shows "1 / 10 ^ 7 \<le> ts / tb * (1 + v)"
proof -
  have tb: "0 < tb" using assms(2) by simp
  have "0.86 / 162 \<le> ts / tb"
    using assms tb by (intro frac_le) auto
  moreover have "0.98 \<le> 1 + v" using assms(1) by simp
  moreover have "0 \<le> ts / tb" using assms(4) tb by simp
  ultimately have "0.86 / 162 * 0.98 \<le> ts / tb * (1 + v)"
    by (intro mult_mono) simp_all
  moreover have "(1::real) / 10 ^ 7 \<le> 0.86 / 162 * 0.98" by simp
  ultimately show ?thesis by linarith
qed

lemma generate_rate_shape:
  "\<exists>r g' variation gv. generate_rate buy sell g = Inr (r, g') \<and> 0 < r \<and>
     random_uniform (- 0.02) 0.02 g = (variation, gv) \<and>
     - 0.02 \<le> variation \<and> variation \<le> 0.02 \<and>
     r = (if buy = sell then 1
          else py_round (dict_get EXCHANGE_RATES sell 1.0 /
                         dict_get EXCHANGE_RATES buy 1.0 * (1 + variation)) 7) \<and>
     g' = (if buy = sell then g else gv)"
proof -
  let ?tb = "dict_get EXCHANGE_RATES buy 1.0"
  let ?ts = "dict_get EXCHANGE_RATES sell 1.0"
  obtain v g1 where v: "random_uniform (- 0.02) 0.02 g = (v, g1)"
    by (cases "random_uniform (- 0.02) 0.02 g")
  have vr: "- 0.02 \<le> v" "v \<le> 0.02" using random_uniform_range[OF v] by simp_all
  show ?thesis
  proof (cases "buy = sell")
    case True
    then have "generate_rate buy sell g = Inr (1, g)"
      by (simp add: generate_rate_def)
    then show ?thesis using True v vr
      by (intro exI[of _ 1] exI[of _ g] exI[of _ v] exI[of _ g1]) simp
  next
    case False
    have tb: "0.86 \<le> ?tb" "?tb \<le> 162" and ts: "0.86 \<le> ?ts"
      using exchange_rate_bounds by blast+
    have nz: "?tb \<noteq> 0" using tb(1) by auto
    have val: "generate_rate buy sell g = Inr (py_round (?ts / ?tb * (1 + v)) 7, g1)"
      using False v nz by (simp add: generate_rate_def float_div_def Let_def)
    have "0 < py_round (?ts / ?tb * (1 + v)) 7"
      by (rule py_round_pos) (rule base_rate_variation_lower[OF vr(1) tb ts])
    then show ?thesis using val v vr False
      by (intro exI[of _ "py_round (?ts / ?tb * (1 + v)) 7"] exI[of _ g1] exI[of _ v]
            exI[of _ g1]) simp
  qed
qed

lemma generate_amount_cents_shape:
  "\<exists>n g'. generate_amount_cents g = Inr (n * 100, g') \<and> 10000 \<le> n \<and> n \<le> 10000000000"
proof -
  from pick_one[of "[''small'', ''medium'', ''large'', ''very_large'']" "[0.3, 0.4, 0.2, 0.1]" g]
  obtain picked size_type g1 where
    p: "random_choices [''small'', ''medium'', ''large'', ''very_large'']
          [0.3, 0.4, 0.2, 0.1] 1 g = Inr (picked, g1)"
       "index0 picked = Inr size_type"
    by auto
  from random_randint_total[of 10000 5000000 g1] obtain n1 h1 where
    s: "random_randint 10000 5000000 g1 = Inr (n1, h1)" "10000 \<le> n1" "n1 \<le> 5000000" by auto
  from random_randint_total[of 5000000 50000000 g1] obtain n2 h2 where
    m: "random_randint 5000000 50000000 g1 = Inr (n2, h2)" "5000000 \<le> n2" "n2 \<le> 50000000"
    by auto
  from random_randint_total[of 50000000 500000000 g1] obtain n3 h3 where
    l: "random_randint 50000000 500000000 g1 = Inr (n3, h3)" "50000000 \<le> n3"
      "n3 \<le> 500000000" by auto
  from random_randint_total[of 500000000 10000000000 g1] obtain n4 h4 where
    v: "random_randint 500000000 10000000000 g1 = Inr (n4, h4)" "500000000 \<le> n4"
      "n4 \<le> 10000000000" by auto
  show ?thesis using p s m l v
    by (simp add: generate_amount_cents_def and_then_def)
qed

lemma generate_amount_cents_small_range:
  assumes "random_choices [''small'', ''medium'', ''large'', ''very_large'']
             [0.3, 0.4, 0.2, 0.1] 1 g = Inr ([''small''], g1)"
  shows "\<exists>n g'. random_randint 10000 5000000 g1 = Inr (n, g') \<and>
           generate_amount_cents g = Inr (n * 100, g') \<and>
           1000000 \<le> n * 100 \<and> n * 100 \<le> 500000000"
proof -
  from random_randint_total[of 10000 5000000 g1] obtain n g' where
    n: "random_randint 10000 5000000 g1 = Inr (n, g')" "10000 \<le> n" "n \<le> 5000000" by auto
  have "generate_amount_cents g = Inr (n * 100, g')"
    by (simp only: generate_amount_cents_def assms) (simp add: and_then_def index0_def n(1))
  with n show ?thesis by auto
qed

lemma strftime_ymd_timedelta:
  "strftime_ymd (t + timedelta d) = strftime_ymd t + d"
  "strftime_ymd (t - timedelta d) = strftime_ymd t - d"
proof -
  have "(t + d * 86400000000) div 86400000000 = t div 86400000000 + d" by simp
  then show "strftime_ymd (t + timedelta d) = strftime_ymd t + d"
    by (simp add: strftime_ymd_def timedelta_def)
  have "(t + (- d) * 86400000000) div 86400000000 = t div 86400000000 + (- d)"
    by simp
  then show "strftime_ymd (t - timedelta d) = strftime_ymd t - d"
    by (simp add: strftime_ymd_def timedelta_def)
qed

lemma strftime_ymd_mono: "t1 \<le> t2 \<Longrightarrow> strftime_ymd t1 \<le> strftime_ymd t2"
  by (simp add: strftime_ymd_def zdiv_mono1)

lemma max_exec_days_eq:
  assumes "now1 \<le> now2" "0 \<le> days_ago"
  shows "min days_ago (timedelta_days (now2 - (now1 - timedelta days_ago))) = days_ago"
proof -
  have "now2 - (now1 - timedelta days_ago) = (now2 - now1) + days_ago * 86400000000"
    by (simp add: timedelta_def)
  then have "timedelta_days (now2 - (now1 - timedelta days_ago)) =
               (now2 - now1) div 86400000000 + days_ago"
    by (simp add: timedelta_days_def)
  moreover have "0 \<le> (now2 - now1) div 86400000000"
    using assms(1) by (simp add: pos_imp_zdiv_nonneg_iff)
  ultimately show ?thesis by simp
qed

lemma generate_dates_shape:
  "\<exists>days_ago g1 offset g2 exec_offset g'.
     random_randint 0 365 g = Inr (days_ago, g1) \<and> 0 \<le> days_ago \<and> days_ago \<le> 365 \<and>
     random_randint 1 365 g1 = Inr (offset, g2) \<and> 1 \<le> offset \<and> offset \<le> 365 \<and>
     0 \<le> exec_offset \<and>
     exec_offset \<le> max 0 (min days_ago (timedelta_days (now2 - (now1 - timedelta days_ago)))) \<and>
     generate_dates st now1 now2 g =
       Inr ((strftime_ymd now1 - days_ago,
             (if st \<in> {''closed_to_trading'', ''completed''} \<and>
                 0 < min days_ago (timedelta_days (now2 - (now1 - timedelta days_ago)))
              then Some (strftime_ymd now1 - days_ago + exec_offset) else None),
             strftime_ymd now1 - days_ago + offset), g')"
proof -
  from random_randint_total[of 0 365 g] obtain days_ago g1 where
    d: "random_randint 0 365 g = Inr (days_ago, g1)" "0 \<le> days_ago" "days_ago \<le> 365" by auto
  from random_randint_total[of 1 365 g1] obtain offset g2 where
    v: "random_randint 1 365 g1 = Inr (offset, g2)" "1 \<le> offset" "offset \<le> 365" by auto
  let ?M = "min days_ago (timedelta_days (now2 - (now1 - timedelta days_ago)))"
  let ?S = "st \<in> {''closed_to_trading'', ''completed''}"
  show ?thesis
  proof (cases "?S \<and> 0 < ?M")
    case True
    then have "0 \<le> ?M" by linarith
    from random_randint_total[OF this, of g2] obtain x g3 where
      x: "random_randint 0 ?M g2 = Inr (x, g3)" "0 \<le> x" "x \<le> ?M" by auto
    have "generate_dates st now1 now2 g =
            Inr ((strftime_ymd now1 - days_ago, Some (strftime_ymd now1 - days_ago + x),
                  strftime_ymd now1 - days_ago + offset), g3)"
      using d(1) v(1) x(1) True
      by (simp add: generate_dates_def and_then_def Let_def strftime_ymd_timedelta)
    then show ?thesis using d v x True
      by (intro exI[of _ days_ago] exI[of _ g1] exI[of _ offset] exI[of _ g2]
            exI[of _ x] exI[of _ g3]) simp
  next
    case False
    then have "generate_dates st now1 now2 g =
            Inr ((strftime_ymd now1 - days_ago, None,
                  strftime_ymd now1 - days_ago + offset), g2)"
      using d(1) v(1)
      by (auto simp: generate_dates_def and_then_def Let_def strftime_ymd_timedelta)
    then show ?thesis using d v False
      by (intro exI[of _ days_ago] exI[of _ g1] exI[of _ offset] exI[of _ g2]
            exI[of _ 0] exI[of _ g2]) auto
  qed
qed

text \<open>
  \<open>generate_order\<close> never raises: it returns a record assembled from the results of
  its steps, each taken at the state of the random source that the previous step left.
\<close>

lemma generate_order_steps:
  "\<exists>picked_type g1 ot ref g2 md g3 picked_status g4 st b s g5 rt g6 amt g7 c e v g8 lp g9.
     random_choices FX_ORDER_TYPES FX_ORDER_TYPE_WEIGHTS 1 g = Inr (picked_type, g1) \<and>
     index0 picked_type = Inr ot \<and> ot \<in> set FX_ORDER_TYPES \<and>
     generate_reference ot g1 = Inr (ref, g2) \<and>
     random_choice MARKET_DIRECTIONS g2 = Inr (md, g3) \<and> md \<in> set MARKET_DIRECTIONS \<and>
     random_choices STATUSES STATUS_WEIGHTS 1 g3 = Inr (picked_status, g4) \<and>
     index0 picked_status = Inr st \<and> st \<in> set STATUSES \<and>
     generate_currency_pair g4 = Inr ((b, s), g5) \<and>
     generate_rate b s g5 = Inr (rt, g6) \<and>
     generate_amount_cents g6 = Inr (amt, g7) \<and>
     generate_dates st now1 now2 g7 = Inr ((c, e, v), g8) \<and>
     random_choice LIQUIDITY_PROVIDERS g8 = Inr (lp, g9) \<and> lp \<in> set LIQUIDITY_PROVIDERS \<and>
     generate_order now1 now2 g =
       Inr (\<lparr> order_id = ref, reference = ref, fx_order_type = ot, source = ''fx_order'',
              creation_date = c, market_direction = md, buy_amount_cents = amt,
              sell_amount_cents = py_int (real_of_int amt * rt),
              buy_currency = b, sell_currency = s,
              amount_cents = (if md = ''buy'' then amt else py_int (real_of_int amt * rt)),
              counter_amount_cents = (if md = ''buy'' then py_int (real_of_int amt * rt) else amt),
              currency = (if md = ''buy'' then b else s),
              counter_currency = (if md = ''buy'' then s else b),
              value_date = v, rate = rt, liquidity_provider = lp,
              execution_date = e, status = st \<rparr>, g9)"
proof -
  have "FX_ORDER_TYPES \<noteq> []" "length FX_ORDER_TYPE_WEIGHTS = length FX_ORDER_TYPES"
    "0 < last (accumulate 0 FX_ORDER_TYPE_WEIGHTS)"
    by (simp_all add: FX_ORDER_TYPES_def FX_ORDER_TYPE_WEIGHTS_def)
  from pick_one[OF this, of g] obtain picked_type ot g1 where
    t: "random_choices FX_ORDER_TYPES FX_ORDER_TYPE_WEIGHTS 1 g = Inr (picked_type, g1)"
       "index0 picked_type = Inr ot" "ot \<in> set FX_ORDER_TYPES" by blast
  from generate_reference_shape[of ot g1] obtain ref g2 where
    r: "generate_reference ot g1 = Inr (ref, g2)" by blast
  have "MARKET_DIRECTIONS \<noteq> []" by (simp add: MARKET_DIRECTIONS_def)
  from random_choice_total[OF this, of g2] obtain md g3 where
    m: "random_choice MARKET_DIRECTIONS g2 = Inr (md, g3)" "md \<in> set MARKET_DIRECTIONS"
    by blast
  have "STATUSES \<noteq> []" "length STATUS_WEIGHTS = length STATUSES"
    "0 < last (accumulate 0 STATUS_WEIGHTS)"
    by (simp_all add: STATUSES_def STATUS_WEIGHTS_def)
  from pick_one[OF this, of g3] obtain picked_status st g4 where
    s: "random_choices STATUSES STATUS_WEIGHTS 1 g3 = Inr (picked_status, g4)"
       "index0 picked_status = Inr st" "st \<in> set STATUSES" by blast
  from generate_currency_pair_distinct[of g4] obtain b s g5 where
    p: "generate_currency_pair g4 = Inr ((b, s), g5)" by blast
  from generate_rate_shape[of b s g5] obtain rt g6 where
    x: "generate_rate b s g5 = Inr (rt, g6)" by blast
  from generate_amount_cents_shape[of g6] obtain amt g7 where
    a: "generate_amount_cents g6 = Inr (amt, g7)" by blast
  from generate_dates_shape[of g7 now2 now1 st] obtain c e v g8 where
    d: "generate_dates st now1 now2 g7 = Inr ((c, e, v), g8)" by blast
  have "LIQUIDITY_PROVIDERS \<noteq> []" by (simp add: LIQUIDITY_PROVIDERS_def)
  from random_choice_total[OF this, of g8] obtain lp g9 where
    l: "random_choice LIQUIDITY_PROVIDERS g8 = Inr (lp, g9)" "lp \<in> set LIQUIDITY_PROVIDERS"
    by blast
  have go: "generate_order now1 now2 g =
       Inr (\<lparr> order_id = ref, reference = ref, fx_order_type = ot, source = ''fx_order'',
              creation_date = c, market_direction = md, buy_amount_cents = amt,
              sell_amount_cents = py_int (real_of_int amt * rt),
              buy_currency = b, sell_currency = s,
              amount_cents = (if md = ''buy'' then amt else py_int (real_of_int amt * rt)),
              counter_amount_cents = (if md = ''buy'' then py_int (real_of_int amt * rt) else amt),
              currency = (if md = ''buy'' then b else s),
              counter_currency = (if md = ''buy'' then s else b),
              value_date = v, rate = rt, liquidity_provider = lp,
              execution_date = e, status = st \<rparr>, g9)"
    unfolding generate_order_def
    by (simp only: t(1,2) r m(1) s(1,2) p x a d l(1) and_then_def sum.case prod.case Let_def
        if_distrib[of "\<lambda>q. case q of (a, b, c, d) \<Rightarrow> _ a b c d"] split: if_split)
       simp
  show ?thesis
    using t r m s p x a d l go by - (intro exI conjI, assumption+)
qed

lemma generate_dates_result:
  assumes "now1 \<le> now2" "generate_dates st now1 now2 g = Inr ((c, e, v), g')"
  shows "\<exists>days_ago g1 offset.
     random_randint 0 365 g = Inr (days_ago, g1) \<and> 0 \<le> days_ago \<and> days_ago \<le> 365 \<and>
     1 \<le> offset \<and> offset \<le> 365 \<and>
     c = strftime_ymd now1 - days_ago \<and> v = c + offset \<and>
     (e \<noteq> None) = (st \<in> {''closed_to_trading'', ''completed''} \<and> 0 < days_ago) \<and>
     (case e of None \<Rightarrow> True | Some x \<Rightarrow> c \<le> x \<and> x \<le> c + days_ago)"
proof -
  from generate_dates_shape[of g now2 now1 st] obtain days_ago g1 offset g2 x gg where
    d: "random_randint 0 365 g = Inr (days_ago, g1)" "0 \<le> days_ago" "days_ago \<le> 365"
    and o: "1 \<le> offset" "offset \<le> 365"
    and x: "0 \<le> x"
      "x \<le> max 0 (min days_ago (timedelta_days (now2 - (now1 - timedelta days_ago))))"
    and val: "generate_dates st now1 now2 g =
       Inr ((strftime_ymd now1 - days_ago,
             (if st \<in> {''closed_to_trading'', ''completed''} \<and>
                 0 < min days_ago (timedelta_days (now2 - (now1 - timedelta days_ago)))
              then Some (strftime_ymd now1 - days_ago + x) else None),
             strftime_ymd now1 - days_ago + offset), gg)"
    by blast
  have m: "min days_ago (timedelta_days (now2 - (now1 - timedelta days_ago))) = days_ago"
    by (rule max_exec_days_eq[OF assms(1) d(2)])
  have c: "c = strftime_ymd now1 - days_ago" and v: "v = c + offset"
    and e: "e = (if st \<in> {''closed_to_trading'', ''completed''} \<and> 0 < days_ago
                 then Some (c + x) else None)"
    using val assms(2) unfolding m by simp_all
  have xr: "x \<le> days_ago" using x(2) d(2) unfolding m by simp
  have "(e \<noteq> None) = (st \<in> {''closed_to_trading'', ''completed''} \<and> 0 < days_ago)"
    unfolding e by simp
  moreover have "(case e of None \<Rightarrow> True | Some y \<Rightarrow> c \<le> y \<and> y \<le> c + days_ago)"
    unfolding e using x(1) xr by simp
  ultimately show ?thesis using d o c v by blast
qed


lemma generate_order_dates:
  "\<exists>r g' gd gd'. generate_order now1 now2 g = Inr (r, g') \<and>
     generate_dates (status r) now1 now2 gd =
       Inr ((creation_date r, execution_date r, value_date r), gd')"
proof -
  from generate_order_steps[of g now1 now2] obtain st c e v g7 g8 r g9 where
    "generate_dates st now1 now2 g7 = Inr ((c, e, v), g8)"
    "generate_order now1 now2 g = Inr (r, g9)"
    "status r = st" "creation_date r = c" "execution_date r = e" "value_date r = v"
    by (elim exE conjE) simp
  then show ?thesis by auto
qed


lemma generate_order_pair:
  "\<exists>r g' gp gp'. generate_order now1 now2 g = Inr (r, g') \<and>
     generate_currency_pair gp = Inr ((buy_currency r, sell_currency r), gp')"
proof -
  from generate_order_steps[of g now1 now2] obtain b s g4 g5 r g9 where
    "generate_currency_pair g4 = Inr ((b, s), g5)"
    "generate_order now1 now2 g = Inr (r, g9)"
    "buy_currency r = b" "sell_currency r = s"
    by (elim exE conjE) simp
  then show ?thesis by auto
qed

lemma generate_order_reference:
  "\<exists>r g' gf gf'. generate_order now1 now2 g = Inr (r, g') \<and>
     generate_reference (fx_order_type r) gf = Inr (reference r, gf') \<and>
     order_id r = reference r \<and> fx_order_type r \<in> set FX_ORDER_TYPES"
proof -
  from generate_order_steps[of g now1 now2] obtain ot g1 ref g2 r g9 where
    "generate_reference ot g1 = Inr (ref, g2)" "ot \<in> set FX_ORDER_TYPES"
    "generate_order now1 now2 g = Inr (r, g9)"
    "fx_order_type r = ot" "reference r = ref" "order_id r = ref"
    by (elim exE conjE) simp
  then show ?thesis by auto
qed

subsection \<open>The concrete runs, evaluated\<close>

lemma choices_uniform_numeral:
  "choices_uniform population (numeral n) g =
     (case random_random g of (u, g1) \<Rightarrow>
        (let i = nat \<lfloor>u * real (length population)\<rfloor> in
         if i < length population
         then (case choices_uniform population (pred_numeral n) g1 of
                 Inl e \<Rightarrow> Inl e
               | Inr (rest, g2) \<Rightarrow> Inr (population ! i # rest, g2))
         else Inl IndexError))"
  by (simp add: numeral_eq_Suc)

lemma run_order_type:
  "random_choices FX_ORDER_TYPES FX_ORDER_TYPE_WEIGHTS 1 (0 ## g) = Inr ([''forward''], g)"
  by (simp add: random_choices_def FX_ORDER_TYPES_def FX_ORDER_TYPE_WEIGHTS_def Let_def
      random_random_def bisect_right.simps)

lemma run_reference:
  "generate_reference ''forward'' (0 ## 0 ## 0 ## 0 ## 0 ## 0 ## 0 ## 0 ## g) =
     Inr (''K-AAAAAAAA'', g)"
  by (simp add: generate_reference_def and_then_def choices_uniform_numeral random_random_def
      ascii_uppercase_def digits_def)

lemma run_direction: "random_choice MARKET_DIRECTIONS (0 ## g) = Inr (''buy'', g)"
  by (simp add: random_choice_def MARKET_DIRECTIONS_def randbelow_def)

lemma run_status_open:
  "random_choices STATUSES STATUS_WEIGHTS 1 (0 ## g) = Inr ([''open''], g)"
  by (simp add: random_choices_def STATUSES_def STATUS_WEIGHTS_def Let_def
      random_random_def bisect_right.simps)

lemma run_status_completed:
  "random_choices STATUSES STATUS_WEIGHTS 1 (7881299347898368 ## g) = Inr ([''completed''], g)"
  by (simp add: random_choices_def STATUSES_def STATUS_WEIGHTS_def Let_def
      random_random_def bisect_right.simps)

lemma run_pair: "generate_currency_pair (0 ## 0 ## 0 ## g) = Inr ((''EUR'', ''USD''), g)"
  by (simp add: generate_currency_pair_def and_then_def random_random_def random_choice_def
      randbelow_def CURRENCIES_def)

lemma run_rate_low: "generate_rate ''EUR'' ''USD'' (0 ## g) = Inr (1.029, g)"
  by (simp add: generate_rate_def dict_get_def EXCHANGE_RATES_def float_div_def
      random_uniform_def random_random_def py_round_def round_half_even_def Let_def)

lemma run_rate_truncation:
  "generate_rate ''EUR'' ''USD'' (8796093022208 ## g) = Inr (1.029041, g)"
  by (simp add: generate_rate_def dict_get_def EXCHANGE_RATES_def float_div_def
      random_uniform_def random_random_def py_round_def round_half_even_def Let_def)

lemma run_tier_small:
  "random_choices [''small'', ''medium'', ''large'', ''very_large''] [0.3, 0.4, 0.2, 0.1] 1
     (0 ## g) = Inr ([''small''], g)"
  by (simp add: random_choices_def Let_def random_random_def bisect_right.simps)

lemma run_amount_small:
  "generate_amount_cents (0 ## n ## g) = Inr ((10000 + int (n mod 4990001)) * 100, g)"
  by (simp only: generate_amount_cents_def run_tier_small)
     (simp add: and_then_def index0_def random_randint_def randbelow_def)

lemma run_dates_same_day:
  "generate_dates st 0 0 (0 ## 0 ## g) = Inr ((0, None, 1), g)"
  by (simp add: generate_dates_def and_then_def random_randint_def randbelow_def Let_def
      timedelta_def timedelta_days_def strftime_ymd_def)

lemma run_dates_executed:
  "generate_dates ''completed'' 0 0 (5 ## 0 ## 3 ## g) = Inr ((- 5, Some (- 2), - 4), g)"
  by (simp add: generate_dates_def and_then_def random_randint_def randbelow_def Let_def
      timedelta_def timedelta_days_def strftime_ymd_def)

lemma run_provider: "random_choice LIQUIDITY_PROVIDERS (0 ## g) = Inr (''SIVB'', g)"
  by (simp add: random_choice_def LIQUIDITY_PROVIDERS_def randbelow_def)

lemmas run_steps = and_then_def index0_def run_order_type run_reference run_direction
  run_status_open run_status_completed run_pair run_rate_low run_rate_truncation
  run_amount_small run_dates_same_day run_dates_executed run_provider


lemma run_same_day:
  "generate_order 0 0 draws_same_day =
     Inr (\<lparr> order_id = ''K-AAAAAAAA'', reference = ''K-AAAAAAAA'', fx_order_type = ''forward'',
            source = ''fx_order'', creation_date = 0, market_direction = ''buy'',
            buy_amount_cents = 1000000, sell_amount_cents = 1029000,
            buy_currency = ''EUR'', sell_currency = ''USD'',
            amount_cents = 1000000, counter_amount_cents = 1029000,
            currency = ''EUR'', counter_currency = ''USD'',
            value_date = 1, rate = 1.029, liquidity_provider = ''SIVB'',
            execution_date = None, status = ''completed'' \<rparr>, sconst 0)"
  by (simp only: generate_order_def draws_same_day_def shift.simps run_steps sum.case prod.case
        list.case Let_def)
     (simp add: py_int_def)

lemma run_executed:
  "generate_order 0 0 draws_executed =
     Inr (\<lparr> order_id = ''K-AAAAAAAA'', reference = ''K-AAAAAAAA'', fx_order_type = ''forward'',
            source = ''fx_order'', creation_date = - 5, market_direction = ''buy'',
            buy_amount_cents = 1000000, sell_amount_cents = 1029000,
            buy_currency = ''EUR'', sell_currency = ''USD'',
            amount_cents = 1000000, counter_amount_cents = 1029000,
            currency = ''EUR'', counter_currency = ''USD'',
            value_date = - 4, rate = 1.029, liquidity_provider = ''SIVB'',
            execution_date = Some (- 2), status = ''completed'' \<rparr>, sconst 0)"
  by (simp only: generate_order_def draws_executed_def shift.simps run_steps sum.case prod.case
        list.case Let_def)
     (simp add: py_int_def)

lemma generate_dates_value:
  assumes "generate_dates st now1 now2 g = Inr ((c, e, v), g')"
  shows "\<exists>offset. 1 \<le> offset \<and> offset \<le> 365 \<and> v = c + offset"
proof -
  from generate_dates_shape[of g now2 now1 st] obtain days_ago offset x gg where
    "1 \<le> offset" "offset \<le> 365"
    "generate_dates st now1 now2 g =
       Inr ((strftime_ymd now1 - days_ago,
             (if st \<in> {''closed_to_trading'', ''completed''} \<and>
                 0 < min days_ago (timedelta_days (now2 - (now1 - timedelta days_ago)))
              then Some (strftime_ymd now1 - days_ago + x) else None),
             strftime_ymd now1 - days_ago + offset), gg)"
    by blast
  with assms show ?thesis by auto
qed

subsection \<open>The claims\<close>



text \<open>
  C2 (the code at a failing input): with the raw draws 0 and 4990000 the tier is
  \<open>small\<close>, \<^verbatim>\<open>randint(100_00, 50_000_00)\<close> returns its upper bound 5000000 and the
  function returns 500000000 cents, a hundred times the claimed upper bound 5000000 of
  the small tier.
\<close>

theorem generate_amount_cents_small_tier_exceeds:
  "random_choices [''small'', ''medium'', ''large'', ''very_large''] [0.3, 0.4, 0.2, 0.1] 1
     (0 ## 4990000 ## sconst 0) = Inr ([''small''], 4990000 ## sconst 0) \<and>
   generate_amount_cents (0 ## 4990000 ## sconst 0) = Inr (500000000, sconst 0)"
  by (simp only: run_tier_small run_amount_small) simp

text \<open>
  C3 (as stated: the execution date is present if and only if the status is
  \<open>closed_to_trading\<close> or \<open>completed\<close>). The record of the run \<open>draws_same_day\<close> is
  completed and created today (\<open>days_ago = 0\<close>); it has no execution date.
\<close>

theorem execution_date_iff_status_counterexample:
  "\<not> isl (generate_order 0 0 draws_same_day) \<and>
   status (fst (projr (generate_order 0 0 draws_same_day))) = ''completed'' \<and>
   execution_date (fst (projr (generate_order 0 0 draws_same_day))) = None"
  by (simp add: run_same_day)

text \<open>
  C3 (amended): when the clock does not run backwards between its two readings, every
  call of \<open>generate_order\<close> returns a record whose dates are the result of
  \<open>generate_dates\<close> for the record's status at some state \<open>gd\<close> of the random source;
  with \<open>days_ago\<close> the first draw made there, the creation date is today minus
  \<open>days_ago\<close>, the execution date is present if and only if the status is
  \<open>closed_to_trading\<close> or \<open>completed\<close> and \<open>days_ago\<close> is positive, and when present
  it lies between the creation date and the minimum of today and creation date plus
  \<open>days_ago\<close>.
\<close>

theorem generate_order_execution_date_iff:
  assumes "now1 \<le> now2"
  shows "\<exists>r g' gd gd' days_ago g1.
     generate_order now1 now2 g = Inr (r, g') \<and>
     generate_dates (status r) now1 now2 gd =
       Inr ((creation_date r, execution_date r, value_date r), gd') \<and>
     random_randint 0 365 gd = Inr (days_ago, g1) \<and>
     creation_date r = strftime_ymd now1 - days_ago \<and>
     (execution_date r \<noteq> None) =
       (status r \<in> {''closed_to_trading'', ''completed''} \<and> 0 < days_ago) \<and>
     (case execution_date r of
        None \<Rightarrow> True
      | Some e \<Rightarrow> creation_date r \<le> e \<and>
          e \<le> min (strftime_ymd now2) (creation_date r + days_ago))"
proof -
  from generate_order_dates[of now1 now2 g] obtain r g' gd gd' where
    go: "generate_order now1 now2 g = Inr (r, g')"
    and d: "generate_dates (status r) now1 now2 gd =
              Inr ((creation_date r, execution_date r, value_date r), gd')"
    by blast
  from generate_dates_result[OF assms d] obtain days_ago g1 where
    r: "random_randint 0 365 gd = Inr (days_ago, g1)"
    and c: "creation_date r = strftime_ymd now1 - days_ago"
    and p: "(execution_date r \<noteq> None) =
              (status r \<in> {''closed_to_trading'', ''completed''} \<and> 0 < days_ago)"
    and b: "(case execution_date r of None \<Rightarrow> True
             | Some x \<Rightarrow> creation_date r \<le> x \<and> x \<le> creation_date r + days_ago)"
    by blast
  have today: "creation_date r + days_ago \<le> strftime_ymd now2"
    using strftime_ymd_mono[OF assms] c by simp
  have "(case execution_date r of None \<Rightarrow> True
         | Some e \<Rightarrow> creation_date r \<le> e \<and>
             e \<le> min (strftime_ymd now2) (creation_date r + days_ago))"
    using b today by (cases "execution_date r") auto
  with go d r c p show ?thesis by blast
qed

theorem generate_order_execution_date_iff_witness:
  "(0::int) \<le> 0 \<and>
   (\<exists>r g'. generate_order 0 0 draws_executed = Inr (r, g') \<and> status r = ''completed'' \<and>
      creation_date r = - 5 \<and> execution_date r = Some (- 2))"
proof -
  have h: "(0::int) \<le> 0" by simp
  from generate_order_execution_date_iff[OF h, of draws_executed] obtain r g' where
    "generate_order 0 0 draws_executed = Inr (r, g')" by blast
  then show ?thesis by (auto simp: run_executed)
qed



text \<open>
  C5: every call of \<open>generate_order\<close> returns a record whose buy and sell currencies
  are the pair returned by \<open>generate_currency_pair\<close> and differ; and
  \<open>generate_currency_pair\<close> returns a pair of two different currencies of the universe
  at every state of the random source, so in the base-currency branch as in the
  cross-pair branch.
\<close>

theorem generate_order_currencies_distinct:
  "(\<exists>r g' gp gp'. generate_order now1 now2 g = Inr (r, g') \<and>
      generate_currency_pair gp = Inr ((buy_currency r, sell_currency r), gp') \<and>
      buy_currency r \<noteq> sell_currency r) \<and>
   (\<exists>b s h'. generate_currency_pair h = Inr ((b, s), h') \<and> b \<noteq> s \<and>
      b \<in> set CURRENCIES \<and> s \<in> set CURRENCIES)"
proof -
  from generate_order_pair[of now1 now2 g] obtain r g' gp gp' where
    go: "generate_order now1 now2 g = Inr (r, g')"
    and p: "generate_currency_pair gp = Inr ((buy_currency r, sell_currency r), gp')"
    by blast
  from generate_currency_pair_distinct[of gp] p have "buy_currency r \<noteq> sell_currency r"
    by auto
  with go p generate_currency_pair_distinct[of h] show ?thesis by blast
qed

text \<open>
  C6: every call of \<open>generate_order\<close> returns a record whose value date is its creation
  date plus an offset between 1 and 365 days, so strictly later than the creation date
  and at most 365 days later.
\<close>

theorem generate_order_value_date:
  "\<exists>r g' offset. generate_order now1 now2 g = Inr (r, g') \<and>
     1 \<le> offset \<and> offset \<le> 365 \<and> value_date r = creation_date r + offset \<and>
     creation_date r < value_date r \<and> value_date r - creation_date r \<le> 365"
proof -
  from generate_order_dates[of now1 now2 g] obtain r g' gd gd' where
    go: "generate_order now1 now2 g = Inr (r, g')"
    and d: "generate_dates (status r) now1 now2 gd =
              Inr ((creation_date r, execution_date r, value_date r), gd')"
    by blast
  from generate_dates_value[OF d] obtain offset where
    "1 \<le> offset" "offset \<le> 365" "value_date r = creation_date r + offset" by blast
  with go show ?thesis by (intro exI[of _ r] exI[of _ g'] exI[of _ offset]) simp
qed

text \<open>
  C7: every call of \<open>generate_order\<close> returns a record whose reference is a prefix
  followed by eight characters, each an uppercase letter or a digit; the prefix is
  \<open>KCH-\<close> when the order type is \<open>chain\<close> and \<open>K-\<close> otherwise, and the reference
  starts with \<open>KCH-\<close> if and only if the order type is \<open>chain\<close>.
\<close>

theorem generate_order_reference_prefix:
  "\<exists>r g' suffix. generate_order now1 now2 g = Inr (r, g') \<and>
     reference r = (if fx_order_type r = ''chain'' then ''KCH-'' else ''K-'') @ suffix \<and>
     length suffix = 8 \<and>
     set suffix \<subseteq> set ''ABCDEFGHIJKLMNOPQRSTUVWXYZ0123456789'' \<and>
     prefix ''KCH-'' (reference r) = (fx_order_type r = ''chain'') \<and>
     prefix ''K-'' (reference r) = (fx_order_type r \<noteq> ''chain'')"
proof -
  from generate_order_reference[of now1 now2 g] obtain r g' gf gf' where
    go: "generate_order now1 now2 g = Inr (r, g')"
    and f: "generate_reference (fx_order_type r) gf = Inr (reference r, gf')"
    by blast
  from generate_reference_shape[of "fx_order_type r" gf] f obtain suffix where
    s: "reference r = (if fx_order_type r = ''chain'' then ''KCH-'' else ''K-'') @ suffix"
      "length suffix = 8" "set suffix \<subseteq> set (ascii_uppercase @ digits)"
    by auto
  have a: "set suffix \<subseteq> set ''ABCDEFGHIJKLMNOPQRSTUVWXYZ0123456789''"
    using s(3) by (simp add: ascii_uppercase_def digits_def)
  have "prefix ''KCH-'' (reference r) = (fx_order_type r = ''chain'')"
    "prefix ''K-'' (reference r) = (fx_order_type r \<noteq> ''chain'')"
    unfolding s(1) by simp_all
  with go s(1,2) a show ?thesis by blast
qed



text \<open>
  C9: \<open>generate_rate\<close> returns a rate for all strings and at every state of the random
  source: no lookup and no division fails. A currency that is not a key of
  \<open>EXCHANGE_RATES\<close> enters the base rate as 1.0.
\<close>

theorem generate_rate_total_default:
  "\<exists>r g' variation gv. generate_rate buy sell g = Inr (r, g') \<and>
     random_uniform (- 0.02) 0.02 g = (variation, gv) \<and>
     r = (if buy = sell then 1
          else py_round
                 ((case map_of EXCHANGE_RATES sell of None \<Rightarrow> 1.0 | Some t \<Rightarrow> t) /
                  (case map_of EXCHANGE_RATES buy of None \<Rightarrow> 1.0 | Some t \<Rightarrow> t) *
                  (1 + variation)) 7)"
proof -
  from generate_rate_shape[of buy sell g] obtain r g' variation gv where
    "generate_rate buy sell g = Inr (r, g')"
    "random_uniform (- 0.02) 0.02 g = (variation, gv)"
    "r = (if buy = sell then 1
          else py_round (dict_get EXCHANGE_RATES sell 1.0 /
                         dict_get EXCHANGE_RATES buy 1.0 * (1 + variation)) 7)"
    by blast
  then show ?thesis unfolding dict_get_def by blast
qed

text \<open>
  C10: every call of \<open>generate_order\<close> returns a record, and its field \<open>source\<close> is the
  string \<open>fx_order\<close>.
\<close>

theorem generate_order_source:
  "\<exists>r g'. generate_order now1 now2 g = Inr (r, g') \<and> source r = ''fx_order''"
proof -
  from generate_order_steps[of g now1 now2] obtain r g9 where
    "generate_order now1 now2 g = Inr (r, g9)" "source r = ''fx_order''"
    by (elim exE conjE) simp
  then show ?thesis by blast
qed

end
